theory Spec2Isabelle
  imports Complex_Main "HOL-Library.Sublist"
begin

section \<open>llmbox: the task pipeline and the turn-taking engine\<close>

text \<open>
  A shallow embedding of the three managers of \<^verbatim>\<open>src/llmbox\<close>:
  \<^item> \<^verbatim>\<open>llm_manager.py\<close> (the Reply Stage): the expiring queue, the bounded message
    history, the idle reset and the allow-list filter;
  \<^item> \<^verbatim>\<open>tts_manager.py\<close> (the Speech Stage): the expiring queue and the speaker lock
    around synthesis and playback;
  \<^item> \<^verbatim>\<open>stt_manager.py\<close> (the Recognition Stage): the admission check on the speaker
    lock and the normalisation of the recognised text.

  Conventions of the model.
  \<^item> Time stamps (\<^verbatim>\<open>time.time()\<close>, \<^verbatim>\<open>receiving_time: int | float\<close>) are real numbers:
    Python's floats are idealised, so \<open>+\<close> and \<open><\<close> are exact. Every clock read of
    the source is an argument of the function that reads it.
  \<^item> A Python \<^verbatim>\<open>str\<close> is a \<open>string\<close>, and a \<open>char\<close> is a code point below 256 (Latin-1):
    \<open>of_char c\<close> is the code point. The functions that look at single characters
    (\<^verbatim>\<open>lower\<close>, \<^verbatim>\<open>strip\<close>) follow Python on all 256 of them. A text with a code point
    from 256 on is outside the model.
  \<^item> The collaborators (transcription, completion, synthesis, playback) are not
    code of the repository: what a call returns, or that it raises, is an argument.
  \<^item> \<^verbatim>\<open>random_string\<close> lives in \<^verbatim>\<open>utils.py\<close>, which is not among the sources: the
    string a call would return is an argument (\<open>rnd\<close>).
  \<^item> Code between two \<^verbatim>\<open>await\<close>s runs atomically on the single-threaded event loop,
    so each such stretch is one function of the model.
\<close>

subsection \<open>Tasks and expiry (both queues)\<close>

text \<open>\<^verbatim>\<open>LLMTask(receiving_time, text)\<close> and \<^verbatim>\<open>TTSTask(receiving_time, input)\<close>.\<close>

record LLMTask =
  llm_receiving_time :: real
  llm_text :: string

record TTSTask =
  tts_receiving_time :: real
  tts_input :: string

text \<open>
  \<^verbatim>\<open>LLMManager._has_expired\<close> and \<^verbatim>\<open>TTSManager._has_expired\<close>; the first argument is
  \<^verbatim>\<open>self._task_expire_time\<close> (an \<^verbatim>\<open>int\<close>), the last is the value of \<^verbatim>\<open>time.time()\<close>.
\<close>

definition llm_has_expired :: "int \<Rightarrow> LLMTask \<Rightarrow> real \<Rightarrow> bool" where
  "llm_has_expired task_expire_time task now =
     (if task_expire_time = 0 then False
      else llm_receiving_time task + of_int task_expire_time < now)"

definition tts_has_expired :: "int \<Rightarrow> TTSTask \<Rightarrow> real \<Rightarrow> bool" where
  "tts_has_expired task_expire_time task now =
     (if task_expire_time = 0 then False
      else tts_receiving_time task + of_int task_expire_time < now)"

text \<open>
  One turn of the \<^verbatim>\<open>while True\<close> loop of \<^verbatim>\<open>_consume_tasks\<close>, after \<^verbatim>\<open>queue.get()\<close> has
  returned a task: \<^verbatim>\<open>continue\<close> on an expired task, otherwise
  \<^verbatim>\<open>loop.create_task(self._execute_task(task))\<close>.
\<close>

datatype 'a dispatch = Dropped | Dispatched 'a

definition llm_consume_step :: "int \<Rightarrow> LLMTask \<Rightarrow> real \<Rightarrow> LLMTask dispatch" where
  "llm_consume_step task_expire_time task now =
     (if llm_has_expired task_expire_time task now then Dropped else Dispatched task)"

definition tts_consume_step :: "int \<Rightarrow> TTSTask \<Rightarrow> real \<Rightarrow> TTSTask dispatch" where
  "tts_consume_step task_expire_time task now =
     (if tts_has_expired task_expire_time task now then Dropped else Dispatched task)"

text \<open>
  The loop itself runs until it is cancelled. A run of it is the list of the tasks it
  dequeued, each with the clock at its dequeue; the result is the list of the tasks
  whose execution was launched, in launch order.
\<close>

fun llm_consume_tasks :: "int \<Rightarrow> (LLMTask \<times> real) list \<Rightarrow> LLMTask list" where
  "llm_consume_tasks task_expire_time [] = []"
| "llm_consume_tasks task_expire_time ((task, now) # rest) =
     (case llm_consume_step task_expire_time task now of
        Dropped \<Rightarrow> llm_consume_tasks task_expire_time rest
      | Dispatched t \<Rightarrow> t # llm_consume_tasks task_expire_time rest)"

fun tts_consume_tasks :: "int \<Rightarrow> (TTSTask \<times> real) list \<Rightarrow> TTSTask list" where
  "tts_consume_tasks task_expire_time [] = []"
| "tts_consume_tasks task_expire_time ((task, now) # rest) =
     (case tts_consume_step task_expire_time task now of
        Dropped \<Rightarrow> tts_consume_tasks task_expire_time rest
      | Dispatched t \<Rightarrow> t # tts_consume_tasks task_expire_time rest)"

subsection \<open>Python string operations used by the stages\<close>

text \<open>
  \<^verbatim>\<open>str.isspace\<close> on the code points below 256: tab, line feed, vertical tab, form
  feed, carriage return (9 to 13), the four separators 28 to 31, the space (32), the
  next-line control (133) and the no-break space (160).
\<close>

definition py_isspace :: "char \<Rightarrow> bool" where
  "py_isspace c =
     (let n = (of_char c :: nat)
      in (9 \<le> n \<and> n \<le> 13) \<or> (28 \<le> n \<and> n \<le> 32) \<or> n = 133 \<or> n = 160)"

text \<open>\<^verbatim>\<open>str.strip()\<close> with no argument: white space is removed at both ends.\<close>

definition py_strip :: "string \<Rightarrow> string" where
  "py_strip s = rev (dropWhile py_isspace (rev (dropWhile py_isspace s)))"

text \<open>
  \<^verbatim>\<open>str.isupper\<close> on one code point below 256: \<^verbatim>\<open>A\<close> to \<^verbatim>\<open>Z\<close> (65 to 90) and the accented
  capitals 192 to 222 but for the multiplication sign (215).
\<close>

definition py_isupper :: "char \<Rightarrow> bool" where
  "py_isupper c =
     (let n = (of_char c :: nat)
      in (65 \<le> n \<and> n \<le> 90) \<or> (192 \<le> n \<and> n \<le> 214) \<or> (216 \<le> n \<and> n \<le> 222))"

text \<open>
  \<^verbatim>\<open>str.lower()\<close>: below 256 it works character by character, every upper-case letter
  moves up by 32 (to its lower-case letter, again below 256) and every other character
  stays.
\<close>

definition lower_char :: "char \<Rightarrow> char" where
  "lower_char c = (if py_isupper c then char_of ((of_char c :: nat) + 32) else c)"

definition py_lower :: "string \<Rightarrow> string" where
  "py_lower s = map lower_char s"

text \<open>
  \<^verbatim>\<open>str.removesuffix(suffix)\<close>: when the suffix is not empty and the string ends with
  it, the string without it; the string itself otherwise. It is applied once.
\<close>

definition py_removesuffix :: "string \<Rightarrow> string \<Rightarrow> string" where
  "py_removesuffix suf s =
     (if suf \<noteq> [] \<and> suffix suf s then take (length s - length suf) s else s)"

text \<open>
  \<^verbatim>\<open>s.split(sep, 1)[-1]\<close> for a separator that is not empty: the text after the first
  occurrence of the separator, or all of \<open>s\<close> when it does not occur.
\<close>

fun after_first :: "string \<Rightarrow> string \<Rightarrow> string option" where
  "after_first sep [] = None"
| "after_first sep (c # cs) =
     (if prefix sep (c # cs) then Some (drop (length sep) (c # cs)) else after_first sep cs)"

definition split_last :: "string \<Rightarrow> string \<Rightarrow> string" where
  "split_last sep s = (case after_first sep s of None \<Rightarrow> s | Some r \<Rightarrow> r)"

subsection \<open>The allow-list filter\<close>

text \<open>
  \<^verbatim>\<open>ALLOWED_CHARACTERS = string.ascii_letters + string.digits + " .,?!{}-_"\<close>, with the
  two constants of Python's \<^verbatim>\<open>string\<close> module written out.
\<close>

definition ascii_letters :: string where
  "ascii_letters = ''abcdefghijklmnopqrstuvwxyzABCDEFGHIJKLMNOPQRSTUVWXYZ''"

definition digits :: string where
  "digits = ''0123456789''"

definition ALLOWED_CHARACTERS :: string where
  "ALLOWED_CHARACTERS = ascii_letters @ digits @ '' .,?!{}-_''"

text \<open>
  \<^verbatim>\<open>"".join([c for c in text if c in ALLOWED_CHARACTERS])\<close>: the comprehension walks the
  text from left to right and keeps a character when it occurs in the allow-list.
\<close>

fun filter_letters :: "string \<Rightarrow> string" where
  "filter_letters [] = []"
| "filter_letters (c # cs) =
     (if c \<in> set ALLOWED_CHARACTERS then c # filter_letters cs else filter_letters cs)"

subsection \<open>Session memory: the bounded message history\<close>

datatype role = User | Assistant

record Message =
  msg_text :: string
  msg_role :: role

text \<open>
  \<^verbatim>\<open>deque(maxlen=n).append(x)\<close>: the item is put at the right end, and when the deque
  then holds more than \<open>n\<close> items the leftmost one is removed.
\<close>

definition deque_append :: "nat \<Rightarrow> 'a list \<Rightarrow> 'a \<Rightarrow> 'a list" where
  "deque_append n d x = (let d' = d @ [x] in if n < length d' then tl d' else d')"

text \<open>
  The fields of \<^verbatim>\<open>LLMManager\<close> that the claims are about. \<open>maxlen\<close> is the \<^verbatim>\<open>maxlen\<close> of
  the deque \<^verbatim>\<open>_message_history\<close>.
\<close>

record LLMManager =
  task_expire_time :: int
  recollection_time :: int
  maxlen :: nat
  last_message_time :: real
  message_history_hash :: string
  message_history :: "Message list"

datatype init_error = ValueError

text \<open>
  \<^verbatim>\<open>LLMManager.__init__\<close>. \<^verbatim>\<open>deque(maxlen=max_message_history)\<close> raises \<^verbatim>\<open>ValueError\<close> on a
  negative length, so no manager exists with one. \<open>rnd\<close> is what \<^verbatim>\<open>random_string(10)\<close>
  returns.
\<close>

definition LLMManager_init :: "int \<Rightarrow> int \<Rightarrow> int \<Rightarrow> string \<Rightarrow> init_error + LLMManager" where
  "LLMManager_init expire recollection max_message_history rnd =
     (if max_message_history < 0 then Inl ValueError
      else Inr \<lparr>task_expire_time = expire, recollection_time = recollection,
                maxlen = nat max_message_history, last_message_time = 0,
                message_history_hash = rnd, message_history = []\<rparr>)"

text \<open>\<^verbatim>\<open>LLMManager._reset_history\<close>; \<open>rnd\<close> is what \<^verbatim>\<open>random_string(10)\<close> returns.\<close>

definition reset_history :: "LLMManager \<Rightarrow> string \<Rightarrow> LLMManager" where
  "reset_history m rnd =
     m\<lparr>message_history := [], last_message_time := 0, message_history_hash := rnd\<rparr>"

subsection \<open>The Reply Stage: \<^verbatim>\<open>LLMManager._execute_task\<close>\<close>

text \<open>
  The condition of the first \<^verbatim>\<open>if\<close>:
  \<^verbatim>\<open>time.time() - self._last_message_time > self._recollection_time\<close>.
\<close>

definition idle_too_long :: "LLMManager \<Rightarrow> real \<Rightarrow> bool" where
  "idle_too_long m now = (now - last_message_time m > of_int (recollection_time m))"

text \<open>
  The first stretch, up to \<^verbatim>\<open>await self._client.chat(...)\<close>: the idle reset and the
  append of the user message. \<open>now\<close> is the clock read by the idle check, \<open>rnd\<close> the
  random string a reset would draw. (The lock \<^verbatim>\<open>_message_task_lock\<close> is never held
  across an \<^verbatim>\<open>await\<close>, so taking it never suspends.)
\<close>

definition execute_task_begin :: "LLMManager \<Rightarrow> LLMTask \<Rightarrow> real \<Rightarrow> string \<Rightarrow> LLMManager" where
  "execute_task_begin m task now rnd =
     (let m1 = (if idle_too_long m now then reset_history m rnd else m)
      in m1\<lparr>message_history :=
              deque_append (maxlen m1) (message_history m1)
                \<lparr>msg_text = llm_text task, msg_role = User\<rparr>\<rparr>)"

text \<open>
  What \<^verbatim>\<open>await self._client.chat(...)\<close> does: it raises an \<^verbatim>\<open>Exception\<close>, returns \<^verbatim>\<open>None\<close>,
  or returns a reply whose \<^verbatim>\<open>message.content\<close> is a string or \<^verbatim>\<open>None\<close> (the field is
  optional in the client library).
\<close>

datatype chat_result = ChatRaises | ChatNone | ChatReply "string option"

text \<open>The exit paths of \<^verbatim>\<open>_execute_task\<close>, in the order of the source.\<close>

datatype llm_exit =
    CompletionFailed
  | NoReply
  | AttributeError
  | EmptyAfterFilter
  | Replied

text \<open>
  \<^verbatim>\<open>reply.message.content.strip()\<close>, then \<^verbatim>\<open>.split("</think>", 1)[-1]\<close>, then
  \<^verbatim>\<open>_filter_letters\<close>.
\<close>

definition reply_text :: "string \<Rightarrow> string" where
  "reply_text content = filter_letters (split_last ''</think>'' (py_strip content))"

text \<open>
  The second stretch, from the return of the completion call to the end. \<open>now1\<close> is the
  clock stored in \<^verbatim>\<open>_last_message_time\<close>, \<open>now2\<close> the clock stamped on the speech task.
  The result is the manager, the tasks handed to \<^verbatim>\<open>tts_manager.add_task\<close>, and the exit
  path. A \<^verbatim>\<open>None\<close> content makes \<^verbatim>\<open>.strip()\<close> raise outside the \<^verbatim>\<open>try\<close>.
\<close>

definition execute_task_finish ::
  "LLMManager \<Rightarrow> chat_result \<Rightarrow> real \<Rightarrow> real \<Rightarrow> LLMManager \<times> TTSTask list \<times> llm_exit" where
  "execute_task_finish m res now1 now2 =
     (case res of
        ChatRaises \<Rightarrow> (m, [], CompletionFailed)
      | ChatNone \<Rightarrow> (m\<lparr>message_history := []\<rparr>, [], NoReply)
      | ChatReply None \<Rightarrow> (m, [], AttributeError)
      | ChatReply (Some content) \<Rightarrow>
          (let reply = reply_text content in
           if reply = [] then (m, [], EmptyAfterFilter)
           else (m\<lparr>message_history :=
                     deque_append (maxlen m) (message_history m)
                       \<lparr>msg_text = reply, msg_role = Assistant\<rparr>,
                   last_message_time := now1\<rparr>,
                 [\<lparr>tts_receiving_time = now2, tts_input = reply\<rparr>],
                 Replied)))"

text \<open>One execution that no other execution interleaves with.\<close>

definition execute_task ::
  "LLMManager \<Rightarrow> LLMTask \<Rightarrow> real \<Rightarrow> string \<Rightarrow> chat_result \<Rightarrow> real \<Rightarrow> real
     \<Rightarrow> LLMManager \<times> TTSTask list \<times> llm_exit" where
  "execute_task m task now rnd res now1 now2 =
     execute_task_finish (execute_task_begin m task now rnd) res now1 now2"

text \<open>
  Executions are launched with \<^verbatim>\<open>create_task\<close> and may interleave at the completion
  call: a run of the stage is any sequence of first and second stretches.
\<close>

datatype llm_event =
    Begin LLMTask real string
  | Finish chat_result real real

fun llm_step :: "LLMManager \<Rightarrow> llm_event \<Rightarrow> LLMManager" where
  "llm_step m (Begin task now rnd) = execute_task_begin m task now rnd"
| "llm_step m (Finish res now1 now2) = fst (execute_task_finish m res now1 now2)"

fun llm_run :: "LLMManager \<Rightarrow> llm_event list \<Rightarrow> LLMManager" where
  "llm_run m [] = m"
| "llm_run m (e # es) = llm_run (llm_step m e) es"

subsection \<open>The Speech Stage: \<^verbatim>\<open>TTSManager._execute_task\<close>\<close>

text \<open>
  What a call inside the \<^verbatim>\<open>try\<close> block does: it returns, it raises an \<^verbatim>\<open>Exception\<close>
  (caught by \<^verbatim>\<open>except Exception\<close>), or it raises a \<^verbatim>\<open>BaseException\<close> that is no
  \<^verbatim>\<open>Exception\<close> (a cancellation or a keyboard interrupt: only \<^verbatim>\<open>finally\<close> sees it).
\<close>

datatype call = Returns | RaisesException | RaisesBaseException

text \<open>The operations of one execution, in the words of the source.\<close>

datatype tts_action =
    Acquire
  | CreateSpeech
  | MakeTempFile
  | StreamToFile
  | PlayAudio
  | Sleep nat
  | CloseStream
  | LogFailure
  | Release

text \<open>
  A block of calls in sequence: each call is attempted and recorded with what it did,
  and the first one that raises ends the block with its exception.
\<close>

fun run_block :: "(tts_action \<times> call) list \<Rightarrow> (tts_action \<times> call) list \<times> call" where
  "run_block [] = ([], Returns)"
| "run_block ((a, r) # rest) =
     (case r of
        Returns \<Rightarrow> (let (tr, e) = run_block rest in ((a, r) # tr, e))
      | RaisesException \<Rightarrow> ([(a, r)], r)
      | RaisesBaseException \<Rightarrow> ([(a, r)], r))"

text \<open>
  The \<^verbatim>\<open>try\<close> block. \<^verbatim>\<open>async with ...create(...) as response\<close> opens the streaming
  request; when that raises, the block ends. Otherwise the body runs: the temporary
  file is made, the audio is streamed to it, it is played (\<^verbatim>\<open>_play_audio\<close> waits for
  the end of the playback), and then \<^verbatim>\<open>await asyncio.sleep(2)\<close>. Leaving the
  \<^verbatim>\<open>async with\<close> closes the response, whether the body returned or raised; an
  exception of the closing replaces the one of the body. The arguments are what each
  call does.
\<close>

definition tts_try_block ::
  "call \<Rightarrow> call \<Rightarrow> call \<Rightarrow> call \<Rightarrow> call \<Rightarrow> call \<Rightarrow> (tts_action \<times> call) list \<times> call" where
  "tts_try_block create tmp stream play sleep close =
     (case create of
        Returns \<Rightarrow>
          (let (tr, e) = run_block [(MakeTempFile, tmp), (StreamToFile, stream),
                                    (PlayAudio, play), (Sleep 2, sleep)]
           in ((CreateSpeech, Returns) # tr @ [(CloseStream, close)],
               if close = Returns then e else close))
      | RaisesException \<Rightarrow> ([(CreateSpeech, create)], create)
      | RaisesBaseException \<Rightarrow> ([(CreateSpeech, create)], create))"

text \<open>
  The whole execution as the trace of its operations: the lock is acquired before the
  \<^verbatim>\<open>try\<close> (the call blocks in a worker thread until the lock is free), the block runs,
  \<^verbatim>\<open>except Exception\<close> logs, and \<^verbatim>\<open>finally\<close> releases the lock. The second component
  is how the coroutine ends: it returns, or the \<^verbatim>\<open>BaseException\<close> leaves it.
\<close>

definition tts_execute_task ::
  "call \<Rightarrow> call \<Rightarrow> call \<Rightarrow> call \<Rightarrow> call \<Rightarrow> call \<Rightarrow> (tts_action \<times> call) list \<times> call" where
  "tts_execute_task create tmp stream play sleep close =
     (let (tr, e) = tts_try_block create tmp stream play sleep close in
      ([(Acquire, Returns)] @ tr
         @ (if e = RaisesException then [(LogFailure, Returns)] else [])
         @ [(Release, Returns)],
       if e = RaisesBaseException then RaisesBaseException else Returns))"

text \<open>
  The speaker lock (\<^verbatim>\<open>threading.Lock\<close>) is a flag: \<open>True\<close> when held. A completed
  \<^verbatim>\<open>acquire\<close> sets it, a \<^verbatim>\<open>release\<close> clears it, nothing else touches it.
\<close>

fun lock_step :: "bool \<Rightarrow> tts_action \<times> call \<Rightarrow> bool" where
  "lock_step locked (Acquire, Returns) = True"
| "lock_step locked (Release, Returns) = False"
| "lock_step locked other = locked"

text \<open>The states of the lock along a trace: the state after each operation.\<close>

fun lock_states :: "bool \<Rightarrow> (tts_action \<times> call) list \<Rightarrow> bool list" where
  "lock_states locked [] = []"
| "lock_states locked (a # tr) = lock_step locked a # lock_states (lock_step locked a) tr"

definition lock_after :: "bool \<Rightarrow> (tts_action \<times> call) list \<Rightarrow> bool" where
  "lock_after locked tr = foldl lock_step locked tr"

text \<open>
  What follows the release in a trace, and whether a completed cooldown is part of it.
\<close>

definition after_release :: "(tts_action \<times> call) list \<Rightarrow> (tts_action \<times> call) list" where
  "after_release tr = tl (dropWhile (\<lambda>a. a \<noteq> (Release, Returns)) tr)"

definition cooldown_after_release :: "(tts_action \<times> call) list \<Rightarrow> bool" where
  "cooldown_after_release tr = ((Sleep 2, Returns) \<in> set (after_release tr))"

subsection \<open>The Recognition Stage: \<^verbatim>\<open>STTManager\<close>\<close>

text \<open>
  What \<^verbatim>\<open>recognizer.recognize_openai\<close> does: it raises, or it returns the recognised text.
\<close>

datatype stt_result = RecognitionFailed | Transcribed string

text \<open>\<^verbatim>\<open>text.lower().strip().removesuffix(".")\<close>.\<close>

definition normalize_text :: "string \<Rightarrow> string" where
  "normalize_text t = py_removesuffix ''.'' (py_strip (py_lower t))"

text \<open>
  \<^verbatim>\<open>STTManager.recognize\<close>: the tasks it hands to \<^verbatim>\<open>llm_manager.add_task\<close> (none or one).
  \<open>now\<close> is the clock stamped on the task.
\<close>

definition recognize :: "stt_result \<Rightarrow> real \<Rightarrow> LLMTask list" where
  "recognize res now =
     (case res of
        RecognitionFailed \<Rightarrow> []
      | Transcribed t \<Rightarrow>
          (let text = normalize_text t in
           if length text = 0 then []
           else [\<lparr>llm_receiving_time = now, llm_text = text\<rparr>]))"

text \<open>
  The recognition side of the system: the speaker lock, the jobs submitted to the
  executor and not yet run (each an audio sample), and the queue of the Reply Stage.
\<close>

record 'a stt_system =
  speaker_lock :: bool
  executor_jobs :: "'a list"
  llm_queue :: "LLMTask list"

text \<open>
  \<^verbatim>\<open>STTManager.callback\<close>: when the lock is held it returns at once; otherwise it submits
  \<^verbatim>\<open>recognize\<close> on the sample to the executor.
\<close>

definition callback :: "'a stt_system \<Rightarrow> 'a \<Rightarrow> 'a stt_system" where
  "callback s audio =
     (if speaker_lock s then s else s\<lparr>executor_jobs := executor_jobs s @ [audio]\<rparr>)"

text \<open>
  The executor runs a submitted job: \<^verbatim>\<open>recognize\<close> is called on its sample, and
  \<^verbatim>\<open>add_task\<close> puts each task it hands over at the end of the queue. With no such job
  nothing happens.
\<close>

definition run_job :: "'a stt_system \<Rightarrow> nat \<Rightarrow> stt_result \<Rightarrow> real \<Rightarrow> 'a stt_system" where
  "run_job s i res now =
     (if i < length (executor_jobs s)
      then s\<lparr>executor_jobs := take i (executor_jobs s) @ drop (Suc i) (executor_jobs s),
              llm_queue := llm_queue s @ recognize res now\<rparr>
      else s)"

text \<open>
  What can happen around the Recognition Stage: the microphone listener calls back with
  a sample, a worker runs a job, the Speech Stage acquires the lock (only when it is
  free) or releases it.
\<close>

datatype 'a stt_event =
    AudioCallback 'a
  | JobRuns nat stt_result real
  | SpeechAcquires
  | SpeechReleases

fun stt_step :: "'a stt_system \<Rightarrow> 'a stt_event \<Rightarrow> 'a stt_system" where
  "stt_step s (AudioCallback audio) = callback s audio"
| "stt_step s (JobRuns i res now) = run_job s i res now"
| "stt_step s SpeechAcquires = (if speaker_lock s then s else s\<lparr>speaker_lock := True\<rparr>)"
| "stt_step s SpeechReleases = s\<lparr>speaker_lock := False\<rparr>"

fun stt_run :: "'a stt_system \<Rightarrow> 'a stt_event list \<Rightarrow> 'a stt_system" where
  "stt_run s [] = s"
| "stt_run s (e # es) = stt_run (stt_step s e) es"

fun is_release :: "'a stt_event \<Rightarrow> bool" where
  "is_release SpeechReleases = True"
| "is_release other = False"

subsection \<open>What a stretch with the lock held may change\<close>

text \<open>
  The relation between the recognition side at the start of a stretch and at a later
  moment of it that is kept while the lock stays held: the lock is still held, the
  pending jobs are among those pending at the start, in their order (none was
  submitted), the queue has only grown at its end, and it has grown by no more tasks
  than jobs have gone.
\<close>

definition window_ok :: "'a stt_system \<Rightarrow> 'a stt_system \<Rightarrow> bool" where
  "window_ok s s' =
     (speaker_lock s'
      \<and> subseq (executor_jobs s') (executor_jobs s)
      \<and> prefix (llm_queue s) (llm_queue s')
      \<and> length (llm_queue s') + length (executor_jobs s')
          \<le> length (llm_queue s) + length (executor_jobs s))"

subsection \<open>What is asked of an enqueued text\<close>

text \<open>
  The property of a text task that the Recognition Stage is checked against: its text
  is not empty, holds no upper-case letter (\<^verbatim>\<open>str.isupper\<close> is false of each of its
  characters) and does not begin with white space.
\<close>

definition well_formed_text :: "LLMTask \<Rightarrow> bool" where
  "well_formed_text task =
     (llm_text task \<noteq> [] \<and> \<not> list_ex py_isupper (llm_text task)
      \<and> \<not> py_isspace (hd (llm_text task)))"

subsection \<open>Example states\<close>

text \<open>
  A manager in the middle of a conversation: one exchange in the history, the last
  reply stored at time 100, an idle threshold of 60 seconds.
\<close>

definition busy_manager :: LLMManager where
  "busy_manager =
     \<lparr>task_expire_time = 120, recollection_time = 60, maxlen = 10, last_message_time = 100,
      message_history_hash = ''AAAAAAAAAA'',
      message_history = [\<lparr>msg_text = ''hi'', msg_role = User\<rparr>,
                         \<lparr>msg_text = ''hello'', msg_role = Assistant\<rparr>]\<rparr>"

definition next_task :: LLMTask where
  "next_task = \<lparr>llm_receiving_time = 105, llm_text = ''bye''\<rparr>"

text \<open>The \<open>k\<close>-th exchange of a conversation: a user message and the reply to it.\<close>

definition exchange :: "nat \<Rightarrow> Message list" where
  "exchange k = [\<lparr>msg_text = replicate k CHR ''q'', msg_role = User\<rparr>,
                 \<lparr>msg_text = replicate k CHR ''r'', msg_role = Assistant\<rparr>]"

text \<open>
  The manager that \<^verbatim>\<open>LLMManager(..., task_expire_time=120)\<close> builds with the defaults of
  the other arguments, and one built with an idle threshold of 2000000000 seconds.
\<close>

definition fresh_manager :: LLMManager where
  "fresh_manager =
     \<lparr>task_expire_time = 120, recollection_time = 60, maxlen = 10, last_message_time = 0,
      message_history_hash = ''AAAAAAAAAA'', message_history = []\<rparr>"

definition patient_manager :: LLMManager where
  "patient_manager =
     \<lparr>task_expire_time = 120, recollection_time = 2000000000, maxlen = 10,
      last_message_time = 0, message_history_hash = ''AAAAAAAAAA'', message_history = []\<rparr>"

text \<open>
  The recognition side at rest (no job submitted, an empty queue), with the speaker
  lock held and with the lock free. Audio samples are numbered.
\<close>

definition gate_held_system :: "nat stt_system" where
  "gate_held_system = \<lparr>speaker_lock = True, executor_jobs = [], llm_queue = []\<rparr>"

definition gate_free_system :: "nat stt_system" where
  "gate_free_system = \<lparr>speaker_lock = False, executor_jobs = [], llm_queue = []\<rparr>"

text \<open>
  The recognition side when the Speech Stage has taken the lock while sample 1,
  admitted before, still waits for its transcription.
\<close>

definition held_pending_system :: "nat stt_system" where
  "held_pending_system = \<lparr>speaker_lock = True, executor_jobs = [1], llm_queue = []\<rparr>"

section \<open>Properties\<close>

subsection \<open>Expiry at dequeue (C1)\<close>

lemma llm_consume_step_eq:
  "llm_consume_step ttl task now =
     (if ttl \<noteq> 0 \<and> llm_receiving_time task + of_int ttl < now then Dropped
      else Dispatched task)"
  by (simp add: llm_consume_step_def llm_has_expired_def)

lemma tts_consume_step_eq:
  "tts_consume_step ttl task now =
     (if ttl \<noteq> 0 \<and> tts_receiving_time task + of_int ttl < now then Dropped
      else Dispatched task)"
  by (simp add: tts_consume_step_def tts_has_expired_def)

lemma llm_consume_tasks_set:
  "t \<in> set (llm_consume_tasks ttl evs) \<longleftrightarrow>
     (\<exists>now. (t, now) \<in> set evs \<and> (ttl = 0 \<or> now \<le> llm_receiving_time t + of_int ttl))"
  by (induction evs) (auto simp add: llm_consume_step_eq split: if_splits)

lemma tts_consume_tasks_set:
  "t \<in> set (tts_consume_tasks ttl evs) \<longleftrightarrow>
     (\<exists>now. (t, now) \<in> set evs \<and> (ttl = 0 \<or> now \<le> tts_receiving_time t + of_int ttl))"
  by (induction evs) (auto simp add: tts_consume_step_eq split: if_splits)

lemma llm_consume_tasks_no_expiry: "llm_consume_tasks 0 evs = map fst evs"
  by (induction evs) (auto simp add: llm_consume_step_eq split: if_splits)

lemma tts_consume_tasks_no_expiry: "tts_consume_tasks 0 evs = map fst evs"
  by (induction evs) (auto simp add: tts_consume_step_eq split: if_splits)

text \<open>
  C1, as stated, at the boundary: the claim drops a task as soon as
  \<open>now \<ge> receiving_time + ttl\<close>. With \<open>ttl = 60\<close>, a task received at 0 and dequeued at
  exactly 60 satisfies that, and the Reply Stage launches it: \<^verbatim>\<open>_has_expired\<close> compares
  with \<open><\<close> ("in the past").
\<close>

theorem expiry_boundary_counterexample:
  "(60::int) \<noteq> 0
   \<and> (60::real) \<ge> llm_receiving_time \<lparr>llm_receiving_time = 0, llm_text = ''hi''\<rparr> + of_int 60
   \<and> llm_consume_step 60 \<lparr>llm_receiving_time = 0, llm_text = ''hi''\<rparr> 60
       = Dispatched \<lparr>llm_receiving_time = 0, llm_text = ''hi''\<rparr>
   \<and> llm_consume_tasks 60 [(\<lparr>llm_receiving_time = 0, llm_text = ''hi''\<rparr>, 60)]
       = [\<lparr>llm_receiving_time = 0, llm_text = ''hi''\<rparr>]"
  by (simp add: llm_consume_step_def llm_has_expired_def)

text \<open>
  C1, amended: in both stages a dequeued task is dropped exactly when \<open>ttl \<noteq> 0\<close> and
  \<open>receiving_time + ttl < now\<close>, and launched exactly when \<open>ttl = 0\<close> or
  \<open>now \<le> receiving_time + ttl\<close>; so the tasks a run of the loop launches are those
  dequeued with \<open>ttl = 0\<close> or no later than \<open>receiving_time + ttl\<close>, and with \<open>ttl = 0\<close>
  every dequeued task is launched, in order, whatever its age.
\<close>

theorem expiry_strict:
  "(llm_consume_step ttl task now = Dropped \<longleftrightarrow>
      ttl \<noteq> 0 \<and> llm_receiving_time task + of_int ttl < now)
   \<and> (llm_consume_step ttl task now = Dispatched task \<longleftrightarrow>
      ttl = 0 \<or> now \<le> llm_receiving_time task + of_int ttl)
   \<and> (tts_consume_step ttl task' now = Dropped \<longleftrightarrow>
      ttl \<noteq> 0 \<and> tts_receiving_time task' + of_int ttl < now)
   \<and> (tts_consume_step ttl task' now = Dispatched task' \<longleftrightarrow>
      ttl = 0 \<or> now \<le> tts_receiving_time task' + of_int ttl)
   \<and> (t \<in> set (llm_consume_tasks ttl evs) \<longleftrightarrow>
      (\<exists>now. (t, now) \<in> set evs \<and> (ttl = 0 \<or> now \<le> llm_receiving_time t + of_int ttl)))
   \<and> (t' \<in> set (tts_consume_tasks ttl evs') \<longleftrightarrow>
      (\<exists>now. (t', now) \<in> set evs' \<and> (ttl = 0 \<or> now \<le> tts_receiving_time t' + of_int ttl)))
   \<and> llm_consume_tasks 0 evs = map fst evs
   \<and> tts_consume_tasks 0 evs' = map fst evs'"
proof -
  have "llm_consume_step ttl task now = Dropped \<longleftrightarrow>
      ttl \<noteq> 0 \<and> llm_receiving_time task + of_int ttl < now"
    by (simp add: llm_consume_step_def llm_has_expired_def)
  moreover have "llm_consume_step ttl task now = Dispatched task \<longleftrightarrow>
      ttl = 0 \<or> now \<le> llm_receiving_time task + of_int ttl"
    by (auto simp add: llm_consume_step_def llm_has_expired_def)
  moreover have "tts_consume_step ttl task' now = Dropped \<longleftrightarrow>
      ttl \<noteq> 0 \<and> tts_receiving_time task' + of_int ttl < now"
    by (simp add: tts_consume_step_def tts_has_expired_def)
  moreover have "tts_consume_step ttl task' now = Dispatched task' \<longleftrightarrow>
      ttl = 0 \<or> now \<le> tts_receiving_time task' + of_int ttl"
    by (auto simp add: tts_consume_step_def tts_has_expired_def)
  ultimately show ?thesis
    using llm_consume_tasks_set [of t ttl evs] tts_consume_tasks_set [of t' ttl evs']
      llm_consume_tasks_no_expiry [of evs] tts_consume_tasks_no_expiry [of evs']
    by blast
qed

text \<open>
  The two scenarios of the specification: \<open>ttl = 60\<close>, received at 0, dequeued at 61
  is dropped; \<open>ttl = 0\<close>, received at 0, dequeued at 10000 is launched.
\<close>

theorem expiry_strict_witness:
  "llm_consume_step 60 \<lparr>llm_receiving_time = 0, llm_text = ''hi''\<rparr> 61 = Dropped
   \<and> tts_consume_step 60 \<lparr>tts_receiving_time = 0, tts_input = ''hello''\<rparr> 61 = Dropped
   \<and> llm_consume_step 0 \<lparr>llm_receiving_time = 0, llm_text = ''hi''\<rparr> 10000
       = Dispatched \<lparr>llm_receiving_time = 0, llm_text = ''hi''\<rparr>
   \<and> tts_consume_step 0 \<lparr>tts_receiving_time = 0, tts_input = ''hello''\<rparr> 10000
       = Dispatched \<lparr>tts_receiving_time = 0, tts_input = ''hello''\<rparr>"
  using expiry_strict [of 60 "\<lparr>llm_receiving_time = 0, llm_text = ''hi''\<rparr>" 61
      "\<lparr>tts_receiving_time = 0, tts_input = ''hello''\<rparr>"]
    expiry_strict [of 0 "\<lparr>llm_receiving_time = 0, llm_text = ''hi''\<rparr>" 10000
      "\<lparr>tts_receiving_time = 0, tts_input = ''hello''\<rparr>"]
  by simp

subsection \<open>Facts about the Reply Stage used below\<close>

lemma LLMManager_init_Inr:
  "LLMManager_init e r k rnd = Inr m \<Longrightarrow>
     0 \<le> k \<and> m = \<lparr>task_expire_time = e, recollection_time = r, maxlen = nat k,
                   last_message_time = 0, message_history_hash = rnd, message_history = []\<rparr>"
  by (auto simp add: LLMManager_init_def split: if_splits)

lemma deque_append_not_empty: "0 < n \<Longrightarrow> deque_append n d x \<noteq> []"
  by (cases d) (auto simp add: deque_append_def Let_def)

lemma execute_task_begin_busy:
  "execute_task_begin busy_manager next_task 110 rnd =
     busy_manager\<lparr>message_history :=
       message_history busy_manager @ [\<lparr>msg_text = ''bye'', msg_role = User\<rparr>]\<rparr>"
  by (simp add: execute_task_begin_def idle_too_long_def busy_manager_def next_task_def
      deque_append_def)

subsection \<open>Facts about the Speech Stage used below\<close>

lemma run_block_subset: "set (fst (run_block xs)) \<subseteq> set xs"
proof (induction xs)
  case Nil
  then show ?case by simp
next
  case (Cons p xs)
  obtain a r where p: "p = (a, r)" by (cases p)
  from Cons.IH show ?case
    unfolding p by (cases r) (auto split: prod.splits)
qed

lemma tts_try_block_actions:
  "(a, r) \<in> set (fst (tts_try_block create tmp stream play sleep close)) \<Longrightarrow>
     a \<in> {CreateSpeech, MakeTempFile, StreamToFile, PlayAudio, Sleep 2, CloseStream}"
  using run_block_subset [of "[(MakeTempFile, tmp), (StreamToFile, stream),
                (PlayAudio, play), (Sleep 2, sleep)]"]
  unfolding tts_try_block_def by (cases create) (auto split: prod.splits)

lemma lock_step_other: "a \<noteq> Acquire \<Longrightarrow> a \<noteq> Release \<Longrightarrow> lock_step l (a, r) = l"
  by (cases a) simp_all

lemma lock_states_quiet:
  "\<forall>p \<in> set tr. fst p \<noteq> Acquire \<and> fst p \<noteq> Release \<Longrightarrow>
     lock_states l tr = replicate (length tr) l"
proof (induction tr)
  case Nil
  then show ?case by simp
next
  case (Cons p tr)
  obtain a r where p: "p = (a, r)" by (cases p)
  from Cons.prems have "lock_step l (a, r) = l"
    unfolding p by (simp add: lock_step_other)
  moreover from Cons have "lock_states l tr = replicate (length tr) l"
    by simp
  ultimately show ?case unfolding p by simp
qed

lemma count_list_quiet:
  "\<forall>p \<in> set tr. fst p \<noteq> Acquire \<and> fst p \<noteq> Release \<Longrightarrow>
     count_list tr (Release, Returns) = 0"
  by (induction tr) auto

lemma lock_states_append:
  "lock_states l (xs @ ys) = lock_states l xs @ lock_states (foldl lock_step l xs) ys"
  by (induction xs arbitrary: l) simp_all

text \<open>
  The shape of every execution: the acquire, operations that do not touch the lock,
  the release.
\<close>

lemma tts_execute_task_shape:
  "\<exists>mid. fst (tts_execute_task create tmp stream play sleep close)
            = (Acquire, Returns) # mid @ [(Release, Returns)]
         \<and> (\<forall>p \<in> set mid. fst p \<noteq> Acquire \<and> fst p \<noteq> Release)"
proof -
  obtain tr e where t: "tts_try_block create tmp stream play sleep close = (tr, e)"
    by (cases "tts_try_block create tmp stream play sleep close")
  let ?log = "if e = RaisesException then [(LogFailure, Returns)] else []"
  have "fst (tts_execute_task create tmp stream play sleep close)
          = (Acquire, Returns) # (tr @ ?log) @ [(Release, Returns)]"
    by (simp add: tts_execute_task_def t)
  moreover have "\<forall>p \<in> set (tr @ ?log). fst p \<noteq> Acquire \<and> fst p \<noteq> Release"
    using tts_try_block_actions [of _ _ create tmp stream play sleep close] t by fastforce
  ultimately show ?thesis by blast
qed

lemma tts_held_until_release:
  "lock_states False (fst (tts_execute_task create tmp stream play sleep close))
     = replicate (length (fst (tts_execute_task create tmp stream play sleep close)) - 1) True @ [False]"
proof -
  obtain mid where s: "fst (tts_execute_task create tmp stream play sleep close)
            = (Acquire, Returns) # mid @ [(Release, Returns)]"
    and q: "\<forall>p \<in> set mid. fst p \<noteq> Acquire \<and> fst p \<noteq> Release"
    using tts_execute_task_shape [of create tmp stream play sleep close] by blast
  from q have "lock_states True mid = replicate (length mid) True"
    by (rule lock_states_quiet)
  then show ?thesis
    unfolding s by (simp add: lock_states_append replicate_app_Cons_same)
qed

lemma cooldown_iff_success:
  "(Sleep 2, Returns) \<in> set (fst (tts_execute_task create tmp stream play sleep close)) \<longleftrightarrow>
     create = Returns \<and> tmp = Returns \<and> stream = Returns \<and> play = Returns \<and> sleep = Returns"
  by (cases create; cases tmp; cases stream; cases play; cases sleep)
     (simp_all add: tts_execute_task_def tts_try_block_def)

lemma after_release_last:
  "(Release, Returns) \<notin> set mid \<Longrightarrow> after_release (x # mid @ [(Release, Returns)]) = [] \<or> x = (Release, Returns)"
  by (induction mid) (auto simp add: after_release_def)

subsection \<open>Facts about the Recognition Stage used below\<close>

lemma normalize_hello: "normalize_text ''Hello.'' = ''hello''"
  by code_simp

lemma normalize_ok: "normalize_text ''Ok..'' = ''ok.''"
  by code_simp

lemma normalize_hi_there: "normalize_text ''Hi There'' = ''hi there''"
  by code_simp

lemma normalize_period_only: "normalize_text '' . '' = []"
  by code_simp

lemma normalize_latin1:
  "normalize_text [CHR 0x09, CHR 0x85, CHR 0xC9, CHR ''T'', CHR 0xC9, CHR ''.'', CHR 0xA0, CHR 0x0A]
     = [CHR 0xE9, CHR ''t'', CHR 0xE9]"
  by code_simp

lemma normalize_nbsp: "normalize_text [CHR 0xA0] = []"
  by code_simp

lemma lower_char_not_upper: "\<not> py_isupper (lower_char c)"
  unfolding lower_char_def py_isupper_def Let_def
  by (cases "py_isupper c") (auto simp add: py_isupper_def Let_def)

lemma py_strip_subset: "set (py_strip s) \<subseteq> set s"
  by (auto simp add: py_strip_def dest!: set_dropWhileD)

lemma dropWhile_rev_hd:
  "rev (dropWhile P (rev xs)) \<noteq> [] \<Longrightarrow> hd (rev (dropWhile P (rev xs))) = hd xs"
proof (induction xs rule: rev_induct)
  case Nil
  then show ?case by simp
next
  case (snoc x xs)
  then show ?case by (cases xs) (auto split: if_splits)
qed

lemma py_strip_hd: "py_strip s \<noteq> [] \<Longrightarrow> \<not> py_isspace (hd (py_strip s))"
proof -
  assume n: "py_strip s \<noteq> []"
  let ?d = "dropWhile py_isspace s"
  have d: "?d \<noteq> []"
  proof
    assume "?d = []"
    then have "py_strip s = []" by (simp only: py_strip_def rev.simps dropWhile.simps)
    with n show False by simp
  qed
  then have "\<not> py_isspace (hd ?d)" by (rule hd_dropWhile)
  moreover from n have "hd (py_strip s) = hd ?d"
    unfolding py_strip_def by (rule dropWhile_rev_hd)
  ultimately show ?thesis by simp
qed

lemma py_strip_last: "py_strip s \<noteq> [] \<Longrightarrow> \<not> py_isspace (last (py_strip s))"
proof -
  assume n: "py_strip s \<noteq> []"
  let ?e = "dropWhile py_isspace (rev (dropWhile py_isspace s))"
  from n have e: "?e \<noteq> []" by (simp add: py_strip_def)
  then have "\<not> py_isspace (hd ?e)" by (rule hd_dropWhile)
  with e show ?thesis by (simp add: py_strip_def last_rev)
qed

lemma py_strip_decompose:
  "\<exists>a b. s = a @ py_strip s @ b \<and> list_all py_isspace a \<and> list_all py_isspace b"
proof -
  let ?a = "takeWhile py_isspace s"
  let ?d = "dropWhile py_isspace s"
  let ?b = "rev (takeWhile py_isspace (rev ?d))"
  have "rev (takeWhile py_isspace (rev ?d) @ dropWhile py_isspace (rev ?d)) = ?d"
    by (simp only: takeWhile_dropWhile_id rev_rev_ident)
  then have "?d = py_strip s @ ?b"
    by (simp only: rev_append py_strip_def)
  then have "s = ?a @ py_strip s @ ?b"
    by (metis takeWhile_dropWhile_id)
  moreover have "list_all py_isspace ?a"
    by (auto simp add: list_all_iff dest: set_takeWhileD)
  moreover have "list_all py_isspace ?b"
    by (auto simp add: list_all_iff dest: set_takeWhileD)
  ultimately show ?thesis by blast
qed

lemma py_removesuffix_subset: "set (py_removesuffix suf s) \<subseteq> set s"
  by (auto simp add: py_removesuffix_def dest: in_set_takeD)

lemma normalize_no_upper: "\<not> list_ex py_isupper (normalize_text t)"
proof -
  have "set (normalize_text t) \<subseteq> set (py_lower t)"
    unfolding normalize_text_def using py_removesuffix_subset py_strip_subset by blast
  then show ?thesis
    by (auto simp add: list_ex_iff py_lower_def lower_char_not_upper)
qed

lemma py_removesuffix_period:
  "py_removesuffix ''.'' u = (if suffix ''.'' u then butlast u else u)"
  by (simp add: py_removesuffix_def butlast_conv_take)

lemma normalize_hd:
  "normalize_text t \<noteq> [] \<Longrightarrow> \<not> py_isspace (hd (normalize_text t))"
proof -
  let ?u = "py_strip (py_lower t)"
  assume n: "normalize_text t \<noteq> []"
  then have u: "?u \<noteq> []"
    by (auto simp add: normalize_text_def py_removesuffix_period split: if_splits)
  from n have "hd (normalize_text t) = hd ?u"
    by (cases ?u) (auto simp add: normalize_text_def py_removesuffix_period split: if_splits)
  with u show ?thesis by (simp add: py_strip_hd)
qed

lemma suffix_period_butlast: "suffix ''.'' u \<Longrightarrow> suffix ''.'' (butlast u) \<longleftrightarrow> suffix ''..'' u"
  by (auto simp add: suffix_def butlast_append)

lemma suffix_two_periods: "suffix ''..'' u \<Longrightarrow> suffix ''.'' u"
  by (auto simp add: suffix_def)

lemma normalize_period:
  "suffix ''.'' (normalize_text t) \<longleftrightarrow> suffix ''..'' (py_strip (py_lower t))"
  unfolding normalize_text_def py_removesuffix_period
  using suffix_period_butlast suffix_two_periods by auto

lemma recognize_well_formed: "list_all well_formed_text (recognize res now)"
  by (cases res)
     (simp_all add: recognize_def Let_def well_formed_text_def normalize_no_upper normalize_hd)

lemma stt_step_well_formed:
  "list_all well_formed_text (llm_queue s) \<Longrightarrow> list_all well_formed_text (llm_queue (stt_step s e))"
  by (cases e) (simp_all add: callback_def run_job_def recognize_well_formed)

lemma stt_run_well_formed:
  "list_all well_formed_text (llm_queue s) \<Longrightarrow> list_all well_formed_text (llm_queue (stt_run s es))"
  by (induction es arbitrary: s) (simp_all add: stt_step_well_formed)


lemma py_lower_no_upper: "\<not> list_ex py_isupper (py_lower t)"
  by (simp add: list_ex_iff py_lower_def lower_char_not_upper)

lemma py_lower_fixed: "\<not> list_ex py_isupper t \<Longrightarrow> py_lower t = t"
  by (induction t) (simp_all add: py_lower_def lower_char_def)

lemma subseq_remove_nth: "subseq (take i xs @ drop (Suc i) xs) xs"
proof -
  have "suffix (drop (Suc i) xs) (drop i xs)"
    by (metis drop_drop plus_1_eq_Suc suffix_drop)
  then have "subseq (drop (Suc i) xs) (drop i xs)"
    by (rule suffix_imp_subseq)
  then have "subseq (take i xs @ drop (Suc i) xs) (take i xs @ drop i xs)"
    by (simp only: subseq_append')
  then show ?thesis by simp
qed

lemma recognize_length: "length (recognize res now) \<le> 1"
  by (cases res) (simp_all add: recognize_def Let_def)

lemma stt_step_held:
  "speaker_lock s \<Longrightarrow> \<not> is_release e \<Longrightarrow> window_ok s (stt_step s e)"
proof (cases e)
  case (JobRuns i res now)
  assume "speaker_lock s"
  then show ?thesis
    using recognize_length [of res now] subseq_remove_nth [of i "executor_jobs s"]
    unfolding JobRuns window_ok_def by (auto simp add: run_job_def)
qed (simp_all add: callback_def window_ok_def)

lemma window_ok_trans: "window_ok s s' \<Longrightarrow> window_ok s' s'' \<Longrightarrow> window_ok s s''"
  unfolding window_ok_def
  by (meson add_le_mono order_trans prefix_order.order_trans subseq_order.order_trans le_refl)

lemma stt_run_held:
  "speaker_lock s \<Longrightarrow> \<not> list_ex is_release es \<Longrightarrow> window_ok s (stt_run s es)"
proof (induction es arbitrary: s)
  case Nil
  then show ?case by (simp add: window_ok_def)
next
  case (Cons e es)
  from Cons.prems have 1: "window_ok s (stt_step s e)"
    by (simp add: stt_step_held)
  then have "speaker_lock (stt_step s e)" by (simp add: window_ok_def)
  with Cons.prems have "window_ok (stt_step s e) (stt_run (stt_step s e) es)"
    by (simp add: Cons.IH)
  with 1 show ?case by (auto intro: window_ok_trans)
qed

subsection \<open>An empty or missing completion result (C2)\<close>

text \<open>
  C2, as stated, on an empty result: the completion call returns a reply whose content
  is the empty string. The history is not cleared: it holds the earlier exchange and
  the new user message, three messages. (No speech task is submitted.)
\<close>

theorem empty_reply_keeps_history_counterexample:
  "reply_text '''' = ''''
   \<and> execute_task busy_manager next_task 110 ''BBBBBBBBBB'' (ChatReply (Some '''')) 111 112 =
       (busy_manager\<lparr>message_history :=
          [\<lparr>msg_text = ''hi'', msg_role = User\<rparr>, \<lparr>msg_text = ''hello'', msg_role = Assistant\<rparr>,
           \<lparr>msg_text = ''bye'', msg_role = User\<rparr>]\<rparr>, [], EmptyAfterFilter)
   \<and> length (message_history
        (fst (execute_task busy_manager next_task 110 ''BBBBBBBBBB'' (ChatReply (Some '''')) 111 112)))
       = 3"
proof -
  have r: "reply_text '''' = ''''"
    by (simp add: reply_text_def py_strip_def split_last_def)
  have "execute_task busy_manager next_task 110 ''BBBBBBBBBB'' (ChatReply (Some '''')) 111 112 =
       (busy_manager\<lparr>message_history :=
          [\<lparr>msg_text = ''hi'', msg_role = User\<rparr>, \<lparr>msg_text = ''hello'', msg_role = Assistant\<rparr>,
           \<lparr>msg_text = ''bye'', msg_role = User\<rparr>]\<rparr>, [], EmptyAfterFilter)"
    by (simp add: execute_task_def execute_task_begin_busy execute_task_finish_def r)
       (simp add: busy_manager_def)
  with r show ?thesis by simp
qed

text \<open>
  C2, amended: when the completion call returns no reply (\<^verbatim>\<open>None\<close>), the Reply Stage
  clears the whole history, whatever it held, and abandons the task with no speech
  task. When it returns a reply whose text is empty after stripping, cutting at
  \<^verbatim>\<open></think>\<close> and filtering, the task is abandoned with no speech task as well, but
  the history is left as it was after the user message of the task was appended.
\<close>

theorem missing_reply_clears_history:
  "execute_task_finish m ChatNone now1 now2 = (m\<lparr>message_history := []\<rparr>, [], NoReply)
   \<and> message_history (fst (execute_task m task now rnd ChatNone now1 now2)) = []
   \<and> fst (snd (execute_task m task now rnd ChatNone now1 now2)) = []
   \<and> (reply_text content = [] \<longrightarrow>
        execute_task_finish m (ChatReply (Some content)) now1 now2 = (m, [], EmptyAfterFilter)
        \<and> execute_task m task now rnd (ChatReply (Some content)) now1 now2 =
            (execute_task_begin m task now rnd, [], EmptyAfterFilter)
        \<and> (0 < maxlen m \<longrightarrow>
             message_history (fst (execute_task m task now rnd (ChatReply (Some content)) now1 now2))
               \<noteq> []))"
proof -
  have "0 < maxlen m \<Longrightarrow> message_history (execute_task_begin m task now rnd) \<noteq> []"
    by (simp add: execute_task_begin_def reset_history_def Let_def deque_append_not_empty)
  then show ?thesis
    by (simp add: execute_task_def execute_task_finish_def)
qed

text \<open>
  A missing reply in the middle of a conversation empties the history; a reply that is
  only a deliberation segment leaves the history with the new user message in it.
\<close>

theorem missing_reply_clears_history_witness:
  "message_history (fst (execute_task busy_manager next_task 110 ''BBBBBBBBBB'' ChatNone 111 112)) = []
   \<and> fst (snd (execute_task busy_manager next_task 110 ''BBBBBBBBBB'' ChatNone 111 112)) = []
   \<and> reply_text ''<think>hm</think> '' = []
   \<and> (0::nat) < maxlen busy_manager
   \<and> execute_task busy_manager next_task 110 ''BBBBBBBBBB'' (ChatReply (Some ''<think>hm</think> '')) 111 112
       = (execute_task_begin busy_manager next_task 110 ''BBBBBBBBBB'', [], EmptyAfterFilter)
   \<and> message_history (fst (execute_task busy_manager next_task 110 ''BBBBBBBBBB''
          (ChatReply (Some ''<think>hm</think> '')) 111 112)) \<noteq> []"
proof -
  have r: "reply_text ''<think>hm</think> '' = []"
    by code_simp
  have p: "(0::nat) < maxlen busy_manager"
    by (simp add: busy_manager_def)
  from r p missing_reply_clears_history [of busy_manager 111 112 next_task 110 "''BBBBBBBBBB''"
      "''<think>hm</think> ''"]
  show ?thesis by blast
qed

subsection \<open>The session token on the clearing paths (C3)\<close>

text \<open>
  C3 at a failing input: in the middle of a conversation (token \<^verbatim>\<open>AAAAAAAAAA\<close>, no idle
  reset due) the completion call returns \<^verbatim>\<open>None\<close>. The history is cleared and the token
  is the old one: this path calls \<^verbatim>\<open>_message_history.clear()\<close> alone, where
  \<^verbatim>\<open>_reset_history\<close>, the path of the idle reset, also draws a new token.
\<close>

theorem none_reply_keeps_token:
  "execute_task busy_manager next_task 110 ''BBBBBBBBBB'' ChatNone 111 112 =
     (busy_manager\<lparr>message_history := []\<rparr>, [], NoReply)
   \<and> message_history busy_manager \<noteq> []
   \<and> message_history (fst (execute_task busy_manager next_task 110 ''BBBBBBBBBB'' ChatNone 111 112)) = []
   \<and> message_history_hash (fst (execute_task busy_manager next_task 110 ''BBBBBBBBBB'' ChatNone 111 112))
       = message_history_hash busy_manager
   \<and> message_history_hash busy_manager = ''AAAAAAAAAA''
   \<and> message_history_hash (reset_history busy_manager ''BBBBBBBBBB'') = ''BBBBBBBBBB''"
  by (simp add: execute_task_def execute_task_begin_busy execute_task_finish_def reset_history_def)
     (simp add: busy_manager_def)

subsection \<open>The history is bounded, oldest first out (C4)\<close>

lemma deque_append_length: "length d \<le> n \<Longrightarrow> length (deque_append n d x) \<le> n"
  by (simp add: deque_append_def Let_def)

lemma foldl_deque_append:
  "length d \<le> n \<Longrightarrow>
     foldl (deque_append n) d xs = drop (length (d @ xs) - n) (d @ xs)"
proof (induction xs arbitrary: d)
  case Nil
  then show ?case by simp
next
  case (Cons x xs)
  let ?d = "deque_append n d x"
  from Cons.prems have len: "length ?d \<le> n"
    by (rule deque_append_length)
  then have "foldl (deque_append n) ?d xs = drop (length (?d @ xs) - n) (?d @ xs)"
    by (rule Cons.IH)
  also have "\<dots> = drop (length (d @ x # xs) - n) (d @ x # xs)"
  proof (cases "Suc (length d) \<le> n")
    case True
    then have "?d = d @ [x]"
      by (simp add: deque_append_def Let_def)
    then show ?thesis by simp
  next
    case False
    with Cons.prems have n: "length d = n" by simp
    then have d: "?d = tl (d @ [x])"
      by (simp add: deque_append_def Let_def)
    have app: "?d @ xs = tl (d @ x # xs)"
      unfolding d by (cases d) simp_all
    have "length ?d = n"
      unfolding d using n by simp
    then have l1: "length (?d @ xs) - n = length xs" by simp
    have l2: "length (d @ x # xs) - n = Suc (length xs)"
      using n by simp
    have "drop (length (?d @ xs) - n) (?d @ xs) = drop (length xs) (?d @ xs)"
      by (simp only: l1)
    also have "\<dots> = drop (length xs) (tl (d @ x # xs))"
      by (simp only: app)
    also have "\<dots> = drop (Suc (length xs)) (d @ x # xs)"
      by (simp only: drop_Suc)
    also have "\<dots> = drop (length (d @ x # xs) - n) (d @ x # xs)"
      by (simp only: l2)
    finally show ?thesis .
  qed
  finally show ?case by simp
qed

lemma foldl_deque_append_length:
  "length d \<le> n \<Longrightarrow> length (foldl (deque_append n) d xs) \<le> n"
  by (induction xs arbitrary: d) (simp_all add: deque_append_length)

lemma execute_task_begin_maxlen: "maxlen (execute_task_begin m task now rnd) = maxlen m"
  by (simp add: execute_task_begin_def reset_history_def Let_def)

lemma execute_task_finish_maxlen: "maxlen (fst (execute_task_finish m res now1 now2)) = maxlen m"
  by (simp add: execute_task_finish_def Let_def split: chat_result.splits option.splits)

lemma execute_task_begin_bounded:
  "length (message_history m) \<le> maxlen m \<Longrightarrow>
     length (message_history (execute_task_begin m task now rnd)) \<le> maxlen m"
  by (simp add: execute_task_begin_def reset_history_def Let_def deque_append_length)

lemma execute_task_finish_bounded:
  "length (message_history m) \<le> maxlen m \<Longrightarrow>
     length (message_history (fst (execute_task_finish m res now1 now2))) \<le> maxlen m"
  by (simp add: execute_task_finish_def Let_def deque_append_length
      split: chat_result.splits option.splits)

lemma llm_step_maxlen: "maxlen (llm_step m e) = maxlen m"
  by (cases e) (simp_all add: execute_task_begin_maxlen execute_task_finish_maxlen)

lemma llm_step_bounded:
  "length (message_history m) \<le> maxlen m \<Longrightarrow>
     length (message_history (llm_step m e)) \<le> maxlen m"
  by (cases e) (simp_all add: execute_task_begin_bounded execute_task_finish_bounded)

lemma llm_run_bounded:
  "length (message_history m) \<le> maxlen m \<Longrightarrow>
     length (message_history (llm_run m es)) \<le> maxlen m \<and> maxlen (llm_run m es) = maxlen m"
proof (induction es arbitrary: m)
  case Nil
  then show ?case by simp
next
  case (Cons e es)
  from Cons.prems have "length (message_history (llm_step m e)) \<le> maxlen (llm_step m e)"
    by (simp add: llm_step_bounded llm_step_maxlen)
  then have "length (message_history (llm_run (llm_step m e) es)) \<le> maxlen (llm_step m e)
      \<and> maxlen (llm_run (llm_step m e) es) = maxlen (llm_step m e)"
    by (rule Cons.IH)
  then show ?case by (simp add: llm_step_maxlen)
qed

text \<open>
  C4: appending any messages \<open>xs\<close>, one by one, to a history \<open>d\<close> within the bound \<open>n\<close>
  leaves the last \<open>n\<close> messages of \<open>d @ xs\<close>, in their order (the oldest are the ones
  evicted), so never more than \<open>n\<close>; and from construction on, whatever stretches of
  executions run in whatever order and with whatever replies, the history of the
  Reply Stage holds at most \<^verbatim>\<open>max_message_history\<close> messages.
\<close>

theorem history_bounded:
  "(length d \<le> n \<longrightarrow>
      foldl (deque_append n) d xs = drop (length (d @ xs) - n) (d @ xs)
      \<and> length (foldl (deque_append n) d xs) \<le> n)
   \<and> (LLMManager_init e r k rnd = Inr m \<longrightarrow>
      length (message_history (llm_run m es)) \<le> nat k \<and> maxlen (llm_run m es) = nat k)"
proof (intro conjI impI)
  assume "length d \<le> n"
  then show "foldl (deque_append n) d xs = drop (length (d @ xs) - n) (d @ xs)"
    by (rule foldl_deque_append)
next
  assume "length d \<le> n"
  then show "length (foldl (deque_append n) d xs) \<le> n"
    by (rule foldl_deque_append_length)
next
  assume "LLMManager_init e r k rnd = Inr m"
  then have m: "message_history m = []" "maxlen m = nat k"
    by (auto dest: LLMManager_init_Inr)
  then have "length (message_history m) \<le> maxlen m" by simp
  then have *: "length (message_history (llm_run m es)) \<le> maxlen m \<and> maxlen (llm_run m es) = maxlen m"
    by (rule llm_run_bounded)
  from * m show "length (message_history (llm_run m es)) \<le> nat k" by simp
  from * m show "maxlen (llm_run m es) = nat k" by simp
qed

text \<open>
  Twelve exchanges (24 messages) appended to an empty history of at most 10 leave the
  last ten messages, those of exchanges 8 to 12.
\<close>

theorem history_bounded_witness:
  "length ([] :: Message list) \<le> 10
   \<and> foldl (deque_append 10) [] (concat (map exchange [1..<13]))
       = concat (map exchange [8..<13])
   \<and> LLMManager_init 120 60 10 ''AAAAAAAAAA'' = Inr fresh_manager
   \<and> length (message_history (llm_run fresh_manager
         [Begin next_task 1700000000 ''BBBBBBBBBB'', Finish (ChatReply (Some ''ok'')) 1700000001 1700000002]))
       \<le> nat 10"
proof -
  let ?xs = "concat (map exchange [1..<13])"
  let ?es = "[Begin next_task 1700000000 ''BBBBBBBBBB'',
              Finish (ChatReply (Some ''ok'')) 1700000001 1700000002]"
  have i: "LLMManager_init 120 60 10 ''AAAAAAAAAA'' = Inr fresh_manager"
    by (simp add: LLMManager_init_def fresh_manager_def)
  have d: "drop (length ([] @ ?xs) - 10) ([] @ ?xs) = concat (map exchange [8..<13])"
    by (simp add: exchange_def upt_rec eval_nat_numeral)
  have l: "length ([] :: Message list) \<le> 10" by simp
  note h = history_bounded [where d = "[]" and n = 10 and xs = ?xs and e = 120 and r = 60
      and k = 10 and rnd = "''AAAAAAAAAA''" and m = fresh_manager and es = ?es]
  from h l have "foldl (deque_append 10) [] ?xs = drop (length ([] @ ?xs) - 10) ([] @ ?xs)"
    by blast
  then have 1: "foldl (deque_append 10) [] ?xs = concat (map exchange [8..<13])"
    by (simp only: d)
  from h i have 2: "length (message_history (llm_run fresh_manager ?es)) \<le> nat 10"
    by blast
  from l 1 i 2 show ?thesis by blast
qed

subsection \<open>Admission while the speaker lock is held (C5)\<close>

text \<open>
  C5, as stated in its first sentence (no task joins the queue of the Reply Stage
  while the lock is held): sample 1 calls back while the lock is free and is submitted,
  the Speech Stage acquires the lock, and then the worker transcribes the sample:
  \<^verbatim>\<open>recognize\<close> does not look at the lock, and the task joins the queue while the lock
  is held.
\<close>

theorem held_gate_late_task_counterexample:
  "stt_run gate_free_system [AudioCallback 1, SpeechAcquires] = held_pending_system
   \<and> speaker_lock held_pending_system
   \<and> llm_queue held_pending_system = []
   \<and> speaker_lock (stt_step held_pending_system (JobRuns 0 (Transcribed ''Hi There'') 3))
   \<and> llm_queue (stt_step held_pending_system (JobRuns 0 (Transcribed ''Hi There'') 3))
       = [\<lparr>llm_receiving_time = 3, llm_text = ''hi there''\<rparr>]"
  by (simp add: gate_free_system_def held_pending_system_def callback_def run_job_def
      recognize_def normalize_hi_there)

text \<open>
  C5, amended: a callback that fires while the speaker lock is held returns at once and
  changes nothing (its sample is dropped: no job is submitted, no task is queued); a
  callback that fires while the lock is free submits its sample, and when that job
  runs and the recognised text is not empty its task joins the queue. So, from any
  moment at which the lock is held and for as long as it is not released, whatever
  callbacks fire and whatever the workers do: no job is submitted (the pending jobs
  stay among those pending at that moment), and the queue grows only by tasks of jobs
  that were pending at that moment, at most one for each of them that has run.
\<close>

theorem held_gate_drops_arriving_audio:
  "(speaker_lock s \<longrightarrow> callback s audio = s)
   \<and> (\<not> speaker_lock s \<longrightarrow>
        callback s audio = s\<lparr>executor_jobs := executor_jobs s @ [audio]\<rparr>)
   \<and> (speaker_lock s \<and> \<not> list_ex is_release es \<longrightarrow>
        speaker_lock (stt_run s es)
        \<and> subseq (executor_jobs (stt_run s es)) (executor_jobs s)
        \<and> prefix (llm_queue s) (llm_queue (stt_run s es))
        \<and> length (llm_queue (stt_run s es)) + length (executor_jobs (stt_run s es))
            \<le> length (llm_queue s) + length (executor_jobs s))
   \<and> (\<not> speaker_lock s \<and> normalize_text t \<noteq> [] \<longrightarrow>
        llm_queue (stt_run s [AudioCallback audio,
                              JobRuns (length (executor_jobs s)) (Transcribed t) now])
          = llm_queue s @ [\<lparr>llm_receiving_time = now, llm_text = normalize_text t\<rparr>])"
proof (intro conjI impI)
  assume "speaker_lock s"
  then show "callback s audio = s"
    by (simp add: callback_def)
next
  assume "\<not> speaker_lock s"
  then show "callback s audio = s\<lparr>executor_jobs := executor_jobs s @ [audio]\<rparr>"
    by (simp add: callback_def)
next
  assume a: "speaker_lock s \<and> \<not> list_ex is_release es"
  then have w: "window_ok s (stt_run s es)"
    by (simp add: stt_run_held)
  from w show "speaker_lock (stt_run s es)" by (simp add: window_ok_def)
  from w show "subseq (executor_jobs (stt_run s es)) (executor_jobs s)"
    by (simp add: window_ok_def)
  from w show "prefix (llm_queue s) (llm_queue (stt_run s es))"
    by (simp add: window_ok_def)
  from w show "length (llm_queue (stt_run s es)) + length (executor_jobs (stt_run s es))
            \<le> length (llm_queue s) + length (executor_jobs s)"
    by (simp add: window_ok_def)
next
  assume "\<not> speaker_lock s \<and> normalize_text t \<noteq> []"
  then show "llm_queue (stt_run s [AudioCallback audio,
                              JobRuns (length (executor_jobs s)) (Transcribed t) now])
          = llm_queue s @ [\<lparr>llm_receiving_time = now, llm_text = normalize_text t\<rparr>]"
    by (simp add: callback_def run_job_def recognize_def)
qed

text \<open>
  The lock is held and sample 1, admitted before, is pending: the samples 2 and 3 that
  call back are dropped, the task of sample 1 is queued. After the release a callback
  is admitted and its text is queued.
\<close>

theorem held_gate_drops_arriving_audio_witness:
  "speaker_lock held_pending_system
   \<and> callback held_pending_system 2 = held_pending_system
   \<and> \<not> list_ex is_release
        [AudioCallback 2, JobRuns 0 (Transcribed ''Hi There'') 3, AudioCallback 3, SpeechAcquires]
   \<and> stt_run held_pending_system
        [AudioCallback 2, JobRuns 0 (Transcribed ''Hi There'') 3, AudioCallback 3, SpeechAcquires]
       = \<lparr>speaker_lock = True, executor_jobs = [],
          llm_queue = [\<lparr>llm_receiving_time = 3, llm_text = ''hi there''\<rparr>]\<rparr>
   \<and> subseq (executor_jobs (stt_run held_pending_system
        [AudioCallback 2, JobRuns 0 (Transcribed ''Hi There'') 3, AudioCallback 3, SpeechAcquires]))
        (executor_jobs held_pending_system)
   \<and> stt_run held_pending_system [SpeechReleases, JobRuns 0 RecognitionFailed 4] = gate_free_system
   \<and> speaker_lock gate_free_system = False
   \<and> callback gate_free_system 5 = gate_free_system\<lparr>executor_jobs := [5]\<rparr>
   \<and> llm_queue (stt_run gate_free_system [AudioCallback 5, JobRuns 0 (Transcribed ''Hello.'') 7])
       = [\<lparr>llm_receiving_time = 7, llm_text = ''hello''\<rparr>]"
proof -
  let ?es = "[AudioCallback 2, JobRuns 0 (Transcribed ''Hi There'') 3, AudioCallback 3,
              SpeechAcquires]"
  have a: "speaker_lock held_pending_system"
    by (simp add: held_pending_system_def)
  have b: "\<not> list_ex is_release ?es" by simp
  have r: "stt_run held_pending_system ?es
       = \<lparr>speaker_lock = True, executor_jobs = [],
          llm_queue = [\<lparr>llm_receiving_time = 3, llm_text = ''hi there''\<rparr>]\<rparr>"
    by (simp add: held_pending_system_def callback_def run_job_def recognize_def
        normalize_hi_there)
  have f: "stt_run held_pending_system [SpeechReleases, JobRuns 0 RecognitionFailed 4]
       = gate_free_system"
    by (simp add: held_pending_system_def gate_free_system_def run_job_def recognize_def)
  have c: "\<not> speaker_lock gate_free_system" "executor_jobs gate_free_system = []"
    and q: "llm_queue gate_free_system = []"
    by (simp_all add: gate_free_system_def)
  have d: "normalize_text ''Hello.'' \<noteq> []"
    by (simp add: normalize_hello)
  note h1 = held_gate_drops_arriving_audio [where s = held_pending_system and audio = 2
      and es = ?es]
  note h2 = held_gate_drops_arriving_audio [where s = gate_free_system and audio = 5
      and t = "''Hello.''" and now = 7]
  from h1 a have 1: "callback held_pending_system 2 = held_pending_system" by blast
  from h1 a b have 2: "subseq (executor_jobs (stt_run held_pending_system ?es))
        (executor_jobs held_pending_system)"
    by blast
  from h2 c have "callback gate_free_system 5
      = gate_free_system\<lparr>executor_jobs := executor_jobs gate_free_system @ [5]\<rparr>"
    by blast
  then have 3: "callback gate_free_system 5 = gate_free_system\<lparr>executor_jobs := [5]\<rparr>"
    by (simp only: c append_Nil)
  from h2 c d
  have "llm_queue (stt_run gate_free_system
          [AudioCallback 5, JobRuns (length (executor_jobs gate_free_system)) (Transcribed ''Hello.'') 7])
       = llm_queue gate_free_system @ [\<lparr>llm_receiving_time = 7, llm_text = normalize_text ''Hello.''\<rparr>]"
    by blast
  then have 4: "llm_queue (stt_run gate_free_system [AudioCallback 5, JobRuns 0 (Transcribed ''Hello.'') 7])
       = [\<lparr>llm_receiving_time = 7, llm_text = ''hello''\<rparr>]"
    by (simp only: q c normalize_hello append_Nil list.size)
  from a 1 b r 2 f c 3 4 show ?thesis by simp
qed

subsection \<open>The speaker lock is released on every exit path (C6)\<close>

text \<open>
  C6: whatever each call of the \<^verbatim>\<open>try\<close> block does (return, raise an \<^verbatim>\<open>Exception\<close>, raise
  a \<^verbatim>\<open>BaseException\<close>), the execution starts by acquiring the speaker lock, ends with
  its release, releases it once, and leaves the lock free.
\<close>

theorem gate_released_on_every_path:
  "lock_after False (fst (tts_execute_task create tmp stream play sleep close)) = False
   \<and> hd (fst (tts_execute_task create tmp stream play sleep close)) = (Acquire, Returns)
   \<and> last (fst (tts_execute_task create tmp stream play sleep close)) = (Release, Returns)
   \<and> count_list (fst (tts_execute_task create tmp stream play sleep close)) (Release, Returns) = 1"
proof -
  obtain mid where s: "fst (tts_execute_task create tmp stream play sleep close)
            = (Acquire, Returns) # mid @ [(Release, Returns)]"
    and q: "\<forall>p \<in> set mid. fst p \<noteq> Acquire \<and> fst p \<noteq> Release"
    using tts_execute_task_shape [of create tmp stream play sleep close] by blast
  from q have "count_list mid (Release, Returns) = 0"
    by (rule count_list_quiet)
  then show ?thesis
    unfolding s lock_after_def by simp
qed

text \<open>
  A playback that raises: the response is closed, the failure is logged and the lock
  released. A cancellation while the temporary file is made, and a run whose only
  failure is the closing of the response, release it as well.
\<close>

theorem gate_released_on_every_path_witness:
  "fst (tts_execute_task Returns Returns Returns RaisesException Returns Returns) =
     [(Acquire, Returns), (CreateSpeech, Returns), (MakeTempFile, Returns), (StreamToFile, Returns),
      (PlayAudio, RaisesException), (CloseStream, Returns), (LogFailure, Returns),
      (Release, Returns)]
   \<and> lock_after False (fst (tts_execute_task Returns Returns Returns RaisesException Returns Returns)) = False
   \<and> lock_after False (fst (tts_execute_task Returns RaisesBaseException Returns Returns Returns Returns)) = False
   \<and> lock_after False (fst (tts_execute_task Returns Returns Returns Returns Returns RaisesException)) = False"
proof -
  have "fst (tts_execute_task Returns Returns Returns RaisesException Returns Returns) =
     [(Acquire, Returns), (CreateSpeech, Returns), (MakeTempFile, Returns), (StreamToFile, Returns),
      (PlayAudio, RaisesException), (CloseStream, Returns), (LogFailure, Returns),
      (Release, Returns)]"
    by (simp add: tts_execute_task_def tts_try_block_def)
  with gate_released_on_every_path [of Returns Returns Returns RaisesException Returns Returns]
    gate_released_on_every_path [of Returns RaisesBaseException Returns Returns Returns Returns]
    gate_released_on_every_path [of Returns Returns Returns Returns Returns RaisesException]
  show ?thesis by blast
qed

subsection \<open>The cooldown and the release (C7)\<close>

text \<open>
  C7, as stated: a cooldown that follows the release, on success and on failure. On
  success the cooldown (\<^verbatim>\<open>asyncio.sleep(2)\<close>) comes before the release and nothing
  follows the release; when the playback raises there is no cooldown at all.
\<close>

theorem cooldown_after_release_counterexample:
  "fst (tts_execute_task Returns Returns Returns Returns Returns Returns) =
     [(Acquire, Returns), (CreateSpeech, Returns), (MakeTempFile, Returns), (StreamToFile, Returns),
      (PlayAudio, Returns), (Sleep 2, Returns), (CloseStream, Returns), (Release, Returns)]
   \<and> \<not> cooldown_after_release (fst (tts_execute_task Returns Returns Returns Returns Returns Returns))
   \<and> fst (tts_execute_task Returns Returns Returns RaisesException Returns Returns) =
     [(Acquire, Returns), (CreateSpeech, Returns), (MakeTempFile, Returns), (StreamToFile, Returns),
      (PlayAudio, RaisesException), (CloseStream, Returns), (LogFailure, Returns),
      (Release, Returns)]
   \<and> \<not> cooldown_after_release (fst (tts_execute_task Returns Returns Returns RaisesException Returns Returns))"
  by (simp add: tts_execute_task_def tts_try_block_def cooldown_after_release_def after_release_def)

text \<open>
  C7, amended: when the synthesis and the playback succeed, the stage waits out the
  cooldown of 2 seconds after the playback with the speaker lock still held, and
  releases the lock after it; the cooldown is completed exactly when every call before
  it in the \<^verbatim>\<open>try\<close> block, and the sleep itself, returned, so a failure of the synthesis
  or of the playback skips it and the lock is released with no wait. In
  every execution the lock is held after each operation but the release, which is last.
\<close>

theorem cooldown_before_release:
  "tts_execute_task Returns Returns Returns Returns Returns Returns =
     ([(Acquire, Returns), (CreateSpeech, Returns), (MakeTempFile, Returns), (StreamToFile, Returns),
       (PlayAudio, Returns), (Sleep 2, Returns), (CloseStream, Returns), (Release, Returns)], Returns)
   \<and> ((Sleep 2, Returns) \<in> set (fst (tts_execute_task create tmp stream play sleep close)) \<longleftrightarrow>
        create = Returns \<and> tmp = Returns \<and> stream = Returns \<and> play = Returns \<and> sleep = Returns)
   \<and> after_release (fst (tts_execute_task create tmp stream play sleep close)) = []
   \<and> lock_states False (fst (tts_execute_task create tmp stream play sleep close))
       = replicate (length (fst (tts_execute_task create tmp stream play sleep close)) - 1) True @ [False]"
proof -
  have 1: "tts_execute_task Returns Returns Returns Returns Returns Returns =
     ([(Acquire, Returns), (CreateSpeech, Returns), (MakeTempFile, Returns), (StreamToFile, Returns),
       (PlayAudio, Returns), (Sleep 2, Returns), (CloseStream, Returns), (Release, Returns)], Returns)"
    by (simp add: tts_execute_task_def tts_try_block_def)
  obtain mid where s: "fst (tts_execute_task create tmp stream play sleep close)
            = (Acquire, Returns) # mid @ [(Release, Returns)]"
    and q: "\<forall>p \<in> set mid. fst p \<noteq> Acquire \<and> fst p \<noteq> Release"
    using tts_execute_task_shape [of create tmp stream play sleep close] by blast
  from q have "(Release, Returns) \<notin> set mid" by fastforce
  then have 3: "after_release (fst (tts_execute_task create tmp stream play sleep close)) = []"
    unfolding s using after_release_last [of mid "(Acquire, Returns)"] by simp
  from 1 3 cooldown_iff_success [of create tmp stream play sleep close]
    tts_held_until_release [of create tmp stream play sleep close]
  show ?thesis by blast
qed

text \<open>
  The cooldown is part of the successful execution, and the lock is held after it; it
  is not part of an execution whose streaming fails.
\<close>

theorem cooldown_before_release_witness:
  "(Sleep 2, Returns) \<in> set (fst (tts_execute_task Returns Returns Returns Returns Returns Returns))
   \<and> (Sleep 2, Returns) \<notin> set (fst (tts_execute_task Returns Returns RaisesException Returns Returns Returns))
   \<and> lock_states False (fst (tts_execute_task Returns Returns Returns Returns Returns Returns))
       = [True, True, True, True, True, True, True, False]"
proof -
  have "length (fst (tts_execute_task Returns Returns Returns Returns Returns Returns)) = 8"
    by (simp add: tts_execute_task_def tts_try_block_def)
  with cooldown_before_release [of Returns Returns Returns Returns Returns Returns]
    cooldown_before_release [of Returns Returns RaisesException Returns Returns Returns]
  show ?thesis by (simp add: eval_nat_numeral)
qed

subsection \<open>The allow-list filter (C8)\<close>

lemma filter_letters_filter:
  "filter_letters s = filter (\<lambda>c. c \<in> set ALLOWED_CHARACTERS) s"
  by (induction s) simp_all

lemma count_list_filter:
  "count_list (filter P xs) c = (if P c then count_list xs c else 0)"
  by (induction xs) auto

text \<open>
  C8: the filter returns a text of allowed characters unchanged; filtering twice is
  filtering once; the result is a subsequence of the text (the order of what remains
  is kept), holds allowed characters only, and holds every allowed character as often
  as the text does (exactly the other characters are removed).
\<close>

theorem filter_letters_idempotent:
  "((\<forall>c \<in> set s. c \<in> set ALLOWED_CHARACTERS) \<longrightarrow> filter_letters s = s)
   \<and> filter_letters (filter_letters s) = filter_letters s
   \<and> subseq (filter_letters s) s
   \<and> set (filter_letters s) \<subseteq> set ALLOWED_CHARACTERS
   \<and> (\<forall>c. count_list (filter_letters s) c =
          (if c \<in> set ALLOWED_CHARACTERS then count_list s c else 0))"
proof (intro conjI allI impI)
  assume "\<forall>c \<in> set s. c \<in> set ALLOWED_CHARACTERS"
  then show "filter_letters s = s"
    by (simp add: filter_letters_filter)
next
  show "filter_letters (filter_letters s) = filter_letters s"
    by (simp add: filter_letters_filter)
next
  show "subseq (filter_letters s) s"
    by (simp add: filter_letters_filter)
next
  show "set (filter_letters s) \<subseteq> set ALLOWED_CHARACTERS"
    by (auto simp add: filter_letters_filter)
next
  fix c
  show "count_list (filter_letters s) c =
          (if c \<in> set ALLOWED_CHARACTERS then count_list s c else 0)"
    unfolding filter_letters_filter by (rule count_list_filter)
qed

text \<open>A clean text is unchanged; a text with markup loses the markup characters only.\<close>

theorem filter_letters_idempotent_witness:
  "list_all (\<lambda>c. c \<in> set ALLOWED_CHARACTERS) ''Hi, {box}! 42''
   \<and> filter_letters ''Hi, {box}! 42'' = ''Hi, {box}! 42''
   \<and> filter_letters ''<b>hi</b>'' = ''bhib''
   \<and> filter_letters (filter_letters ''<b>hi</b>'') = ''bhib''"
proof -
  have a: "\<forall>c \<in> set ''Hi, {box}! 42''. c \<in> set ALLOWED_CHARACTERS"
    by (simp add: ALLOWED_CHARACTERS_def ascii_letters_def digits_def)
  have b: "filter_letters ''<b>hi</b>'' = ''bhib''"
    by (simp add: ALLOWED_CHARACTERS_def ascii_letters_def digits_def)
  from a filter_letters_idempotent [of "''Hi, {box}! 42''"]
  have "filter_letters ''Hi, {box}! 42'' = ''Hi, {box}! 42''" by blast
  moreover from filter_letters_idempotent [of "''<b>hi</b>''"]
  have "filter_letters (filter_letters ''<b>hi</b>'') = filter_letters ''<b>hi</b>''" by blast
  ultimately show ?thesis using a b by (simp add: list_all_iff)
qed

subsection \<open>The first task after construction (C9)\<close>

text \<open>
  C9, as stated, for a positive idle threshold that the clock has not passed: with a
  threshold of 2000000000 seconds and the clock at 1700000000, the first task triggers
  no idle reset and the token stays the one drawn at construction.
\<close>

theorem first_task_no_reset_counterexample:
  "(0::int) < 2000000000
   \<and> LLMManager_init 120 2000000000 10 ''AAAAAAAAAA'' = Inr patient_manager
   \<and> \<not> idle_too_long patient_manager 1700000000
   \<and> message_history_hash (execute_task_begin patient_manager next_task 1700000000 ''BBBBBBBBBB'')
       = ''AAAAAAAAAA''"
  by (simp add: LLMManager_init_def patient_manager_def idle_too_long_def execute_task_begin_def)

text \<open>
  C9, amended: the first task executed after construction triggers the idle reset
  exactly when the clock read by the idle check exceeds the idle threshold (the last
  activity time starts at 0); then the token is drawn anew and the history, empty
  already, receives the user message. With a threshold the clock has not passed there
  is no reset: the token stays and the user message is appended all the same.
\<close>

theorem first_task_resets_after_threshold:
  "LLMManager_init e r k rnd = Inr m \<longrightarrow>
     (idle_too_long m now \<longleftrightarrow> of_int r < now)
     \<and> (of_int r < now \<longrightarrow>
          execute_task_begin m task now rnd' =
            m\<lparr>message_history_hash := rnd',
              message_history := deque_append (nat k) [] \<lparr>msg_text = llm_text task, msg_role = User\<rparr>\<rparr>)
     \<and> (now \<le> of_int r \<longrightarrow>
          execute_task_begin m task now rnd' =
            m\<lparr>message_history := deque_append (nat k) [] \<lparr>msg_text = llm_text task, msg_role = User\<rparr>\<rparr>)"
proof
  assume "LLMManager_init e r k rnd = Inr m"
  then have m: "m = \<lparr>task_expire_time = e, recollection_time = r, maxlen = nat k,
                   last_message_time = 0, message_history_hash = rnd, message_history = []\<rparr>"
    by (simp add: LLMManager_init_Inr)
  show "(idle_too_long m now \<longleftrightarrow> of_int r < now)
     \<and> (of_int r < now \<longrightarrow>
          execute_task_begin m task now rnd' =
            m\<lparr>message_history_hash := rnd',
              message_history := deque_append (nat k) [] \<lparr>msg_text = llm_text task, msg_role = User\<rparr>\<rparr>)
     \<and> (now \<le> of_int r \<longrightarrow>
          execute_task_begin m task now rnd' =
            m\<lparr>message_history := deque_append (nat k) [] \<lparr>msg_text = llm_text task, msg_role = User\<rparr>\<rparr>)"
    unfolding m by (simp add: idle_too_long_def execute_task_begin_def reset_history_def)
qed

text \<open>
  The default threshold of 60 seconds against today's clock: the first task resets.
  The threshold of 2000000000 seconds: it does not.
\<close>

theorem first_task_resets_after_threshold_witness:
  "LLMManager_init 120 60 10 ''AAAAAAAAAA'' = Inr fresh_manager
   \<and> (of_int 60 :: real) < 1700000000
   \<and> idle_too_long fresh_manager 1700000000
   \<and> execute_task_begin fresh_manager next_task 1700000000 ''BBBBBBBBBB'' =
       fresh_manager\<lparr>message_history_hash := ''BBBBBBBBBB'',
                     message_history := [\<lparr>msg_text = ''bye'', msg_role = User\<rparr>]\<rparr>
   \<and> LLMManager_init 120 2000000000 10 ''AAAAAAAAAA'' = Inr patient_manager
   \<and> (1700000000 :: real) \<le> of_int 2000000000
   \<and> execute_task_begin patient_manager next_task 1700000000 ''BBBBBBBBBB'' =
       patient_manager\<lparr>message_history := [\<lparr>msg_text = ''bye'', msg_role = User\<rparr>]\<rparr>"
proof -
  have i: "LLMManager_init 120 60 10 ''AAAAAAAAAA'' = Inr fresh_manager"
    by (simp add: LLMManager_init_def fresh_manager_def)
  have j: "LLMManager_init 120 2000000000 10 ''AAAAAAAAAA'' = Inr patient_manager"
    by (simp add: LLMManager_init_def patient_manager_def)
  have a: "(of_int 60 :: real) < 1700000000" by simp
  have b: "(1700000000 :: real) \<le> of_int 2000000000" by simp
  have d: "deque_append (nat 10) [] \<lparr>msg_text = llm_text next_task, msg_role = User\<rparr>
             = [\<lparr>msg_text = ''bye'', msg_role = User\<rparr>]"
    by (simp add: deque_append_def next_task_def)
  note h1 = first_task_resets_after_threshold [where e = 120 and r = 60 and k = 10
      and rnd = "''AAAAAAAAAA''" and m = fresh_manager and now = 1700000000
      and task = next_task and rnd' = "''BBBBBBBBBB''"]
  note h2 = first_task_resets_after_threshold [where e = 120 and r = 2000000000 and k = 10
      and rnd = "''AAAAAAAAAA''" and m = patient_manager and now = 1700000000
      and task = next_task and rnd' = "''BBBBBBBBBB''"]
  from h1 i a have 1: "idle_too_long fresh_manager 1700000000" by blast
  from h1 i a have 2: "execute_task_begin fresh_manager next_task 1700000000 ''BBBBBBBBBB'' =
       fresh_manager\<lparr>message_history_hash := ''BBBBBBBBBB'',
                     message_history := [\<lparr>msg_text = ''bye'', msg_role = User\<rparr>]\<rparr>"
    unfolding d by blast
  from h2 j b have 3: "execute_task_begin patient_manager next_task 1700000000 ''BBBBBBBBBB'' =
       patient_manager\<lparr>message_history := [\<lparr>msg_text = ''bye'', msg_role = User\<rparr>]\<rparr>"
    unfolding d by blast
  from i a 1 2 j b 3 show ?thesis by blast
qed

subsection \<open>The text that recognition enqueues (C10)\<close>

text \<open>
  C10, as stated, on a text that ends with two periods: \<^verbatim>\<open>removesuffix\<close> removes one of
  them, and the task that is enqueued has a text with a trailing period.
\<close>

theorem trailing_period_counterexample:
  "recognize (Transcribed ''Ok..'') 5 = [\<lparr>llm_receiving_time = 5, llm_text = ''ok.''\<rparr>]
   \<and> last ''ok.'' = CHR ''.''
   \<and> suffix ''.'' (llm_text (hd (recognize (Transcribed ''Ok..'') 5)))"
  by (simp add: recognize_def normalize_ok suffix_def)

text \<open>
  C10, amended, for recognised texts of code points below 256: the text is lowercased
  (no upper-case letter remains, a text without one is unchanged), stripped (exactly
  the white space at its two ends is removed), and then exactly one trailing period is
  removed if there is one; a failed recognition and an empty result submit nothing, any
  other result submits one task with that text. So every text that recognition
  enqueues is not empty, holds no upper-case letter and does not begin with white
  space; it still ends with a period exactly when the lowercased and stripped text
  ended with two periods.
\<close>

theorem recognized_text_normalized:
  "normalize_text t = (let u = py_strip (py_lower t) in if suffix ''.'' u then butlast u else u)
   \<and> \<not> list_ex py_isupper (py_lower t)
   \<and> (\<not> list_ex py_isupper t \<longrightarrow> py_lower t = t)
   \<and> (\<exists>a b. py_lower t = a @ py_strip (py_lower t) @ b
          \<and> list_all py_isspace a \<and> list_all py_isspace b)
   \<and> (py_strip (py_lower t) \<noteq> [] \<longrightarrow>
        \<not> py_isspace (hd (py_strip (py_lower t))) \<and> \<not> py_isspace (last (py_strip (py_lower t))))
   \<and> recognize RecognitionFailed now = []
   \<and> recognize (Transcribed t) now =
       (if normalize_text t = [] then []
        else [\<lparr>llm_receiving_time = now, llm_text = normalize_text t\<rparr>])
   \<and> (suffix ''.'' (normalize_text t) \<longleftrightarrow> suffix ''..'' (py_strip (py_lower t)))
   \<and> list_all well_formed_text (recognize res now)
   \<and> (llm_queue s = [] \<longrightarrow> list_all well_formed_text (llm_queue (stt_run s es)))"
proof -
  have "normalize_text t = (let u = py_strip (py_lower t) in if suffix ''.'' u then butlast u else u)"
    by (simp add: normalize_text_def py_removesuffix_period)
  moreover have "\<not> list_ex py_isupper t \<longrightarrow> py_lower t = t"
    by (simp add: py_lower_fixed)
  moreover have "py_strip (py_lower t) \<noteq> [] \<longrightarrow>
        \<not> py_isspace (hd (py_strip (py_lower t))) \<and> \<not> py_isspace (last (py_strip (py_lower t)))"
    by (simp add: py_strip_hd py_strip_last)
  moreover have "recognize RecognitionFailed now = []"
    by (simp add: recognize_def)
  moreover have "recognize (Transcribed t) now =
       (if normalize_text t = [] then []
        else [\<lparr>llm_receiving_time = now, llm_text = normalize_text t\<rparr>])"
    by (simp add: recognize_def)
  moreover have "llm_queue s = [] \<longrightarrow> list_all well_formed_text (llm_queue (stt_run s es))"
    by (simp add: stt_run_well_formed)
  ultimately show ?thesis
    using normalize_period [of t] recognize_well_formed [of res now]
      py_lower_no_upper [of t] py_strip_decompose [of "py_lower t"]
    by blast
qed

text \<open>
  Two samples are admitted; the second one to be transcribed is a lone period and is
  not queued, the first one keeps one of its two periods. A text with accented
  capitals between a tab, a next-line control, a no-break space and a line feed is
  queued as its three lower-case letters; a lone no-break space is not queued.
\<close>

theorem recognized_text_normalized_witness:
  "llm_queue gate_free_system = []
   \<and> list_all well_formed_text (llm_queue (stt_run gate_free_system
        [AudioCallback 1, AudioCallback 2, JobRuns 1 (Transcribed ''Ok..'') 5,
         JobRuns 0 (Transcribed '' . '') 6]))
   \<and> llm_queue (stt_run gate_free_system
        [AudioCallback 1, AudioCallback 2, JobRuns 1 (Transcribed ''Ok..'') 5,
         JobRuns 0 (Transcribed '' . '') 6])
       = [\<lparr>llm_receiving_time = 5, llm_text = ''ok.''\<rparr>]
   \<and> recognize (Transcribed ''Hello.'') 7 = [\<lparr>llm_receiving_time = 7, llm_text = ''hello''\<rparr>]
   \<and> recognize (Transcribed [CHR 0x09, CHR 0x85, CHR 0xC9, CHR ''T'', CHR 0xC9, CHR ''.'',
                               CHR 0xA0, CHR 0x0A]) 8
       = [\<lparr>llm_receiving_time = 8, llm_text = [CHR 0xE9, CHR ''t'', CHR 0xE9]\<rparr>]
   \<and> recognize (Transcribed [CHR 0xA0]) 9 = []"
proof -
  let ?es = "[AudioCallback 1, AudioCallback 2, JobRuns 1 (Transcribed ''Ok..'') 5,
         JobRuns 0 (Transcribed '' . '') 6]"
  let ?ete = "[CHR 0x09, CHR 0x85, CHR 0xC9, CHR ''T'', CHR 0xC9, CHR ''.'', CHR 0xA0, CHR 0x0A]"
  have q: "llm_queue gate_free_system = []"
    by (simp add: gate_free_system_def)
  have r: "llm_queue (stt_run gate_free_system ?es) = [\<lparr>llm_receiving_time = 5, llm_text = ''ok.''\<rparr>]"
    by (simp add: gate_free_system_def callback_def run_job_def recognize_def normalize_ok
        normalize_period_only)
  note h = recognized_text_normalized [where s = gate_free_system and es = ?es
      and t = "''Hello.''" and now = 7]
  note h8 = recognized_text_normalized [where t = ?ete and now = 8]
  note h9 = recognized_text_normalized [where t = "[CHR 0xA0]" and now = 9]
  from h q have 1: "list_all well_formed_text (llm_queue (stt_run gate_free_system ?es))"
    by blast
  from h have "recognize (Transcribed ''Hello.'') 7 =
       (if normalize_text ''Hello.'' = [] then []
        else [\<lparr>llm_receiving_time = 7, llm_text = normalize_text ''Hello.''\<rparr>])"
    by blast
  then have 2: "recognize (Transcribed ''Hello.'') 7 = [\<lparr>llm_receiving_time = 7, llm_text = ''hello''\<rparr>]"
    by (simp add: normalize_hello)
  from h8 have "recognize (Transcribed ?ete) 8 =
       (if normalize_text ?ete = [] then []
        else [\<lparr>llm_receiving_time = 8, llm_text = normalize_text ?ete\<rparr>])"
    by blast
  then have 3: "recognize (Transcribed ?ete) 8
       = [\<lparr>llm_receiving_time = 8, llm_text = [CHR 0xE9, CHR ''t'', CHR 0xE9]\<rparr>]"
    by (simp only: normalize_latin1) simp
  from h9 have "recognize (Transcribed [CHR 0xA0]) 9 =
       (if normalize_text [CHR 0xA0] = [] then []
        else [\<lparr>llm_receiving_time = 9, llm_text = normalize_text [CHR 0xA0]\<rparr>])"
    by blast
  then have 4: "recognize (Transcribed [CHR 0xA0]) 9 = []"
    by (simp only: normalize_nbsp) simp
  from q 1 r 2 3 4 show ?thesis by blast
qed

end
